theory Spec2Isabelle
  imports Complex_Main "HOL-Library.Word"
begin

section \<open>JavaScript strings\<close>

text \<open>
  A JavaScript string is a sequence of UTF-16 code units. The regular expression
  \<^verbatim>\<open>/\s+/\<close> (no \<^verbatim>\<open>u\<close> flag) matches code unit by code unit; \<^verbatim>\<open>\s\<close> is the
  ECMAScript WhiteSpace and LineTerminator set, all of it in the basic plane.
\<close>

type_synonym jschar = "16 word"
type_synonym jsstring = "jschar list"

definition utf16 :: "string \<Rightarrow> jsstring" where
  "utf16 s = map (\<lambda>c. of_nat (of_char c)) s"

definition is_ws :: "jschar \<Rightarrow> bool" where
  "is_ws c \<longleftrightarrow>
     c = 0x09 \<or> c = 0x0A \<or> c = 0x0B \<or> c = 0x0C \<or> c = 0x0D \<or> c = 0x20 \<or> c = 0xA0 \<or>
     c = 0x1680 \<or> (0x2000 \<le> c \<and> c \<le> 0x200A) \<or> c = 0x2028 \<or> c = 0x2029 \<or>
     c = 0x202F \<or> c = 0x205F \<or> c = 0x3000 \<or> c = 0xFEFF"

text \<open>
  \<^verbatim>\<open>String.prototype.split(/\s+/)\<close>: the scan keeps the piece collected since the last
  separator; at a whitespace code unit the greedy match \<^verbatim>\<open>\s+\<close> consumes the whole run,
  the piece is emitted and a new, empty piece starts. At the end of the string the last
  piece is emitted, also when it is empty. The empty string gives one empty piece.
\<close>

function split_from :: "jsstring \<Rightarrow> jsstring \<Rightarrow> jsstring list" where
  "split_from piece [] = [piece]"
| "split_from piece (c # cs) =
     (if is_ws c then piece # split_from [] (dropWhile is_ws cs)
      else split_from (piece @ [c]) cs)"
  by pat_completeness auto
termination
  by (relation "measure (\<lambda>(piece, rest). length rest)")
     (auto simp: less_Suc_eq_le length_dropWhile_le)

definition split_ws :: "jsstring \<Rightarrow> jsstring list" where
  "split_ws s = split_from [] s"

text \<open>\<^verbatim>\<open>Array.prototype.join(" ")\<close> on an array of strings.\<close>

fun join_sp :: "jsstring list \<Rightarrow> jsstring" where
  "join_sp [] = []"
| "join_sp [w] = w"
| "join_sp (w # ws) = w @ 0x20 # join_sp ws"

text \<open>
  \<^verbatim>\<open>s.substring(0, n)\<close> with \<open>n\<close> a non-negative integer (the \<^verbatim>\<open>charIndex\<close> of a speech
  event is an unsigned long): an end past the length is clamped to the length.
\<close>

definition substring0 :: "jsstring \<Rightarrow> nat \<Rightarrow> jsstring" where
  "substring0 s n = take (min n (length s)) s"

text \<open>\<^verbatim>\<open>xs[i]\<close>: \<^verbatim>\<open>undefined\<close> (here \<open>None\<close>) out of range.\<close>

definition index :: "'a list \<Rightarrow> nat \<Rightarrow> 'a option" where
  "index xs i = (if i < length xs then Some (xs ! i) else None)"

section \<open>The text-to-speech manager\<close>

text \<open>
  A JavaScript number used as a speech rate: \<^verbatim>\<open>NaN\<close> (what \<^verbatim>\<open>parseFloat\<close> gives on a
  malformed value) or a number, which the manager only stores and tests for truthiness.
\<close>

datatype jsnumber = NaN | Num real

record voice =
  voice_name :: jsstring
  voice_lang :: jsstring

text \<open>
  A \<^verbatim>\<open>SpeechSynthesisUtterance\<close>. \<open>utt_id\<close> is the identity of the object: the number
  of utterances the manager had created before it.
\<close>

record speech_utterance =
  utt_id :: nat
  utt_text :: jsstring
  utt_rate :: real
  utt_voice :: "voice option"

text \<open>
  A value stored as a callback: absent (\<^verbatim>\<open>null\<close> or \<^verbatim>\<open>undefined\<close>), a truthy value
  that is not a function, or a function, named by a number.
\<close>

datatype handler = Absent | NotCallable | Fn nat

record options =
  opt_rate :: "jsnumber option"
  opt_voiceName :: "jsstring option"
  opt_onWordChange :: handler
  opt_onEnd :: handler

text \<open>
  The commands \<^verbatim>\<open>window.speechSynthesis\<close> receives, and the callbacks invoked, each
  with the function called and its arguments. What a callback does when called is the
  caller's code, not the manager's.
\<close>

datatype synth_cmd = Cancel | is_SpeakCmd: SpeakCmd speech_utterance | PauseCmd | ResumeCmd

datatype call = WordChange nat "jsstring option" nat | is_Ended: Ended nat

text \<open>
  The fields of \<^verbatim>\<open>TTSManager\<close>, and with them what it acts on: the voices
  \<^verbatim>\<open>synth.getVoices()\<close> returns, the commands sent to \<^verbatim>\<open>synth\<close> so far and the
  callback invocations made so far, both in order.
\<close>

record tts =
  utterance :: "speech_utterance option"
  currentText :: jsstring
  isPlaying :: bool
  currentWord :: "jsstring option"
  wordIndex :: nat
  words :: "jsstring list"
  onWordChange :: handler
  onEnd :: handler
  synth_voices :: "voice list"
  synth_cmds :: "synth_cmd list"
  calls :: "call list"

definition TTSManager :: "voice list \<Rightarrow> tts" where
  "TTSManager vs =
     \<lparr>utterance = None, currentText = [], isPlaying = False, currentWord = Some [],
      wordIndex = 0, words = [], onWordChange = Absent, onEnd = Absent,
      synth_voices = vs, synth_cmds = [], calls = []\<rparr>"

definition utterances_created :: "tts \<Rightarrow> nat" where
  "utterances_created s = length (filter is_SpeakCmd (synth_cmds s))"

definition stop :: "tts \<Rightarrow> tts" where
  "stop s =
     s\<lparr>synth_cmds := synth_cmds s @ [Cancel],
       isPlaying := False,
       utterance := None,
       currentText := [],
       wordIndex := 0,
       words := []\<rparr>"

text \<open>\<^verbatim>\<open>options.rate || 1.0\<close>: absent, \<^verbatim>\<open>NaN\<close> and \<^verbatim>\<open>0\<close> are falsy.\<close>

definition rate_or_default :: "jsnumber option \<Rightarrow> real" where
  "rate_or_default r =
     (case r of None \<Rightarrow> 1 | Some NaN \<Rightarrow> 1 | Some (Num x) \<Rightarrow> (if x = 0 then 1 else x))"

text \<open>
  The voice lookup of \<^verbatim>\<open>speak\<close>: skipped when \<^verbatim>\<open>options.voiceName\<close> is falsy (absent
  or the empty string); otherwise the first voice of that exact name, and the utterance
  keeps its default voice (\<open>None\<close>) when there is none.
\<close>

definition set_voice :: "jsstring option \<Rightarrow> voice list \<Rightarrow> speech_utterance \<Rightarrow> speech_utterance" where
  "set_voice voiceName voices u =
     (case voiceName of
        None \<Rightarrow> u
      | Some n \<Rightarrow>
          (if n = [] then u
           else (case find (\<lambda>v. voice_name v = n) voices of
                   Some v \<Rightarrow> u\<lparr>utt_voice := Some v\<rparr>
                 | None \<Rightarrow> u)))"

definition speak :: "jsstring \<Rightarrow> options \<Rightarrow> tts \<Rightarrow> tts" where
  "speak txt opts s0 =
     (let s1 = stop s0;
          s2 = s1\<lparr>currentText := txt,
                  onWordChange := opt_onWordChange opts,
                  onEnd := opt_onEnd opts\<rparr>;
          s3 = s2\<lparr>words := split_ws txt, wordIndex := 0\<rparr>;
          u0 = \<lparr>utt_id = utterances_created s3, utt_text = txt, utt_rate = 1, utt_voice = None\<rparr>;
          u1 = u0\<lparr>utt_rate := rate_or_default (opt_rate opts)\<rparr>;
          u2 = set_voice (opt_voiceName opts) (synth_voices s3) u1
      in s3\<lparr>utterance := Some u2,
            synth_cmds := synth_cmds s3 @ [SpeakCmd u2],
            isPlaying := True\<rparr>)"

text \<open>
  The two event handlers \<^verbatim>\<open>speak\<close> attaches to the utterance. Both are closures over
  \<^verbatim>\<open>this\<close> only: they read the manager's fields at the time the event arrives, whichever
  utterance the event belongs to.
\<close>

definition onboundary :: "jsstring \<Rightarrow> nat \<Rightarrow> tts \<Rightarrow> tts" where
  "onboundary name charIndex s =
     (if name = utf16 ''word'' then
        (let upToIndex = substring0 (currentText s) charIndex;
             s1 = s\<lparr>wordIndex := length (split_ws upToIndex) - 1\<rparr>;
             s2 = s1\<lparr>currentWord := index (words s1) (wordIndex s1)\<rparr>
         in (case onWordChange s2 of
               Fn k \<Rightarrow> s2\<lparr>calls := calls s2 @ [WordChange k (currentWord s2) (wordIndex s2)]\<rparr>
             | _ \<Rightarrow> s2))
      else s)"

definition onend :: "tts \<Rightarrow> tts" where
  "onend s =
     (let s1 = s\<lparr>isPlaying := False\<rparr>
      in (case onEnd s1 of
            Fn k \<Rightarrow> s1\<lparr>calls := calls s1 @ [Ended k]\<rparr>
          | _ \<Rightarrow> s1))"

definition pause :: "tts \<Rightarrow> tts" where
  "pause s =
     (if isPlaying s then s\<lparr>synth_cmds := synth_cmds s @ [PauseCmd], isPlaying := False\<rparr>
      else s)"

definition resume :: "tts \<Rightarrow> tts" where
  "resume s =
     (if \<not> isPlaying s \<and> utterance s \<noteq> None
      then s\<lparr>synth_cmds := synth_cmds s @ [ResumeCmd], isPlaying := True\<rparr>
      else s)"

definition togglePlayPause :: "tts \<Rightarrow> tts" where
  "togglePlayPause s = (if isPlaying s then pause s else resume s)"

definition isCurrentlyPlaying :: "tts \<Rightarrow> bool" where
  "isCurrentlyPlaying s = isPlaying s"

text \<open>
  \<^verbatim>\<open>changeRate\<close> is the one method that can throw: after \<^verbatim>\<open>this.stop()\<close> it reads
  \<^verbatim>\<open>this.words\<close> and \<^verbatim>\<open>this.utterance.voice\<close>, and reading a property of \<^verbatim>\<open>null\<close> is a
  TypeError, raised while the argument of \<^verbatim>\<open>this.speak\<close> is built, so before the call.
  The error carries the state the manager is left in.
\<close>

datatype error = TypeError

definition changeRate :: "jsnumber \<Rightarrow> tts \<Rightarrow> (error \<times> tts) + tts" where
  "changeRate rate s =
     (case utterance s of
        None \<Rightarrow> Inr s
      | Some _ \<Rightarrow>
          (let wasPlaying = isPlaying s;
               currentIndex = wordIndex s;
               s1 = stop s;
               remainingText = join_sp (drop currentIndex (words s1))
           in (case utterance s1 of
                 None \<Rightarrow> Inl (TypeError, s1)
               | Some u \<Rightarrow>
                   (let s2 = speak remainingText
                               \<lparr>opt_rate = Some rate,
                                opt_voiceName = map_option voice_name (utt_voice u),
                                opt_onWordChange = onWordChange s1,
                                opt_onEnd = onEnd s1\<rparr> s1
                    in Inr (if \<not> wasPlaying then pause s2 else s2)))))"

section \<open>Sequences of operations\<close>

text \<open>
  What can happen to a manager, one at a time (the page is single-threaded): a method
  call, or the engine firing \<^verbatim>\<open>onboundary\<close> or \<^verbatim>\<open>onend\<close> on one of the utterances it
  was given, named by its \<open>utt_id\<close>. The engine can fire events only on utterances that
  exist; an event for any other number is dropped. The utterance may be one that has since
  been cancelled: \<^verbatim>\<open>speak\<close> attaches the handlers to the utterance object, \<^verbatim>\<open>stop\<close>
  does not detach them, and whether an event still arrives for a cancelled utterance is
  up to the engine. An exception of \<^verbatim>\<open>changeRate\<close> ends that call and leaves the manager
  as it was when thrown.
\<close>

datatype op =
    Speak jsstring options
  | Pause
  | Resume
  | TogglePlayPause
  | Stop
  | ChangeRate jsnumber
  | is_BoundaryEvent: BoundaryEvent nat jsstring nat
  | is_EndEvent: EndEvent nat

fun step :: "op \<Rightarrow> tts \<Rightarrow> tts" where
  "step (Speak txt opts) s = speak txt opts s"
| "step Pause s = pause s"
| "step Resume s = resume s"
| "step TogglePlayPause s = togglePlayPause s"
| "step Stop s = stop s"
| "step (ChangeRate r) s = (case changeRate r s of Inl (e, s') \<Rightarrow> s' | Inr s' \<Rightarrow> s')"
| "step (BoundaryEvent uid name charIndex) s =
     (if uid < utterances_created s then onboundary name charIndex s else s)"
| "step (EndEvent uid) s = (if uid < utterances_created s then onend s else s)"

fun run :: "op list \<Rightarrow> tts \<Rightarrow> tts" where
  "run [] s = s"
| "run (x # xs) s = run xs (step x s)"

text \<open>
  The operations that leave a session as it is: they neither start nor stop one, and they
  are not its completion.
\<close>

definition session_op :: "op \<Rightarrow> bool" where
  "session_op x =
     (case x of Pause \<Rightarrow> True | Resume \<Rightarrow> True | TogglePlayPause \<Rightarrow> True
      | BoundaryEvent uid name charIndex \<Rightarrow> True | _ \<Rightarrow> False)"

text \<open>The invocations of \<^verbatim>\<open>onEnd\<close> made so far.\<close>

definition ended_calls :: "tts \<Rightarrow> call list" where
  "ended_calls s = filter is_Ended (calls s)"

text \<open>
  While an utterance is held, \<^verbatim>\<open>words\<close> is the split of \<^verbatim>\<open>currentText\<close>: what
  \<^verbatim>\<open>speak\<close> establishes and every other operation keeps until \<^verbatim>\<open>stop\<close>.
\<close>

definition session_inv :: "tts \<Rightarrow> bool" where
  "session_inv s \<longleftrightarrow> (utterance s \<noteq> None \<longrightarrow> words s = split_ws (currentText s))"

text \<open>
  While no utterance is held, the text and \<^verbatim>\<open>words\<close> are empty: the state of a fresh
  manager and the state \<^verbatim>\<open>stop\<close> leaves.
\<close>

definition idle_inv :: "tts \<Rightarrow> bool" where
  "idle_inv s \<longleftrightarrow> (utterance s = None \<longrightarrow> currentText s = [] \<and> words s = [])"

text \<open>The operations that start a session.\<close>

definition is_Speak :: "op \<Rightarrow> bool" where
  "is_Speak x = (case x of Speak t opts \<Rightarrow> True | _ \<Rightarrow> False)"

text \<open>
  \<^verbatim>\<open>speak(text)\<close> with the default \<^verbatim>\<open>options = {}\<close>, and the options of the scenarios
  below: a rate of 1.0 and both callbacks.
\<close>

definition no_options :: options where
  "no_options =
     \<lparr>opt_rate = None, opt_voiceName = None, opt_onWordChange = Absent, opt_onEnd = Absent\<rparr>"

definition scenario_options :: options where
  "scenario_options =
     \<lparr>opt_rate = Some (Num 1), opt_voiceName = None,
      opt_onWordChange = Fn 1, opt_onEnd = Fn 2\<rparr>"

text \<open>The word indexes computed by a series of word-boundary events, in order.\<close>

fun wordIndex_trace :: "nat list \<Rightarrow> tts \<Rightarrow> nat list" where
  "wordIndex_trace [] s = []"
| "wordIndex_trace (n # ns) s =
     (let s' = onboundary (utf16 ''word'') n s in wordIndex s' # wordIndex_trace ns s')"

section \<open>The reading history\<close>

text \<open>
  A history entry as \<^verbatim>\<open>addHistoryEntry\<close> documents its parameter, and as stored: the
  same fields after the generated \<^verbatim>\<open>id\<close>. \<^verbatim>\<open>chrome.storage.local\<close> holds the array
  under the key \<^verbatim>\<open>history\<close>, or nothing yet.
\<close>

record entry =
  url :: jsstring
  timestamp :: nat
  extractedText :: jsstring

record stored_entry = entry +
  entry_id :: jsstring

record local_storage =
  history :: "stored_entry list option"

text \<open>\<^verbatim>\<open>Date.now().toString()\<close>: a non-negative integer in decimal.\<close>

fun toString :: "nat \<Rightarrow> jsstring" where
  "toString n = (if n < 10 then [0x30 + of_nat n] else toString (n div 10) @ [0x30 + of_nat (n mod 10)])"

definition addHistoryEntry :: "nat \<Rightarrow> entry \<Rightarrow> local_storage \<Rightarrow> local_storage" where
  "addHistoryEntry now e st =
     (let newEntry = \<lparr>url = url e, timestamp = timestamp e, extractedText = extractedText e,
                      entry_id = toString now\<rparr>;
          history0 = (case history st of None \<Rightarrow> [] | Some h \<Rightarrow> h);
          history1 = newEntry # history0;
          limitedHistory = take 100 history1
      in st\<lparr>history := Some limitedHistory\<rparr>)"

section \<open>Splitting at whitespace\<close>

lemma split_from_nonempty: "split_from p xs \<noteq> []"
  by (induction p xs rule: split_from.induct) auto

lemma split_from_length_pos: "Suc 0 \<le> length (split_from p xs)"
  using split_from_nonempty [of p xs] by (cases "split_from p xs") simp_all

lemma dropWhile_append_all:
  "dropWhile P xs = [] \<Longrightarrow> dropWhile P (xs @ ys) = dropWhile P ys"
  by (induction xs) (auto split: if_splits)

lemma dropWhile_append_some:
  "dropWhile P xs \<noteq> [] \<Longrightarrow> dropWhile P (xs @ ys) = dropWhile P xs @ ys"
  by (induction xs) (auto split: if_splits)

text \<open>A longer string never splits into fewer pieces than its prefix.\<close>

lemma split_from_append_le:
  "length (split_from p xs) \<le> length (split_from p (xs @ ys))"
proof (induction p xs arbitrary: ys rule: split_from.induct)
  case (1 piece)
  show ?case using split_from_length_pos [of piece ys] by simp
next
  case (2 piece c cs)
  show ?case
  proof (cases "is_ws c")
    case True
    show ?thesis
    proof (cases "dropWhile is_ws cs = []")
      case e: True
      show ?thesis
        using True split_from_length_pos [of "[]" "dropWhile is_ws ys"]
        by (simp add: dropWhile_append_all [OF e] e)
    next
      case f: False
      show ?thesis
        using True "2.IH"(1) [OF True, of ys]
        by (simp add: dropWhile_append_some [OF f])
    qed
  next
    case False
    then show ?thesis using "2.IH"(2) [OF False, of ys] by simp
  qed
qed

lemma split_ws_take_mono:
  assumes "n \<le> m"
  shows "length (split_ws (take n t)) \<le> length (split_ws (take m t))"
proof -
  have "take n (take m t) = take n t"
    using assms by (simp add: min_def)
  then have "take m t = take n t @ drop n (take m t)"
    using append_take_drop_id [of n "take m t"] by simp
  then have "split_from [] (take m t) = split_from [] (take n t @ drop n (take m t))"
    by simp
  then show ?thesis
    unfolding split_ws_def using split_from_append_le [of "[]" "take n t" "drop n (take m t)"]
    by simp
qed

lemma split_ws_take_le: "length (split_ws (take n t)) \<le> length (split_ws t)"
  using split_from_append_le [of "[]" "take n t" "drop n t"] by (simp add: split_ws_def)

lemma substring0_take: "substring0 s n = take n s"
  by (simp add: substring0_def min_def)

lemma split_ws_all_ws:
  assumes "\<forall>c\<in>set t. is_ws c"
  shows "split_ws t = (if t = [] then [[]] else [[], []])"
proof (cases t)
  case Nil
  then show ?thesis by (simp add: split_ws_def)
next
  case (Cons c cs)
  then have c: "is_ws c" and d: "dropWhile is_ws cs = []" using assms by auto
  show ?thesis using Cons c by (simp add: split_ws_def d)
qed

lemma toString_example: "toString 1714000000000 = utf16 ''1714000000000''"
  by (simp add: utf16_def)

section \<open>Effects of the operations\<close>

lemma onboundary_currentText [simp]: "currentText (onboundary nm n s) = currentText s"
  by (simp add: onboundary_def Let_def split: handler.splits)

lemma onboundary_words [simp]: "words (onboundary nm n s) = words s"
  by (simp add: onboundary_def Let_def split: handler.splits)

lemma onboundary_word_wordIndex:
  "wordIndex (onboundary (utf16 ''word'') n s) = length (split_ws (take n (currentText s))) - 1"
  by (simp add: onboundary_def Let_def substring0_take split: handler.splits)

lemma onboundary_word_effect:
  "onboundary (utf16 ''word'') n s =
     (let i = length (split_ws (take n (currentText s))) - 1
      in s\<lparr>wordIndex := i, currentWord := index (words s) i,
            calls := calls s @ (case onWordChange s of
                                   Fn k \<Rightarrow> [WordChange k (index (words s) i) i] | _ \<Rightarrow> [])\<rparr>)"
  by (simp add: onboundary_def Let_def substring0_take split: handler.splits)

lemma onend_effect:
  "onend s = s\<lparr>isPlaying := False,
               calls := calls s @ (case onEnd s of Fn k \<Rightarrow> [Ended k] | _ \<Rightarrow> [])\<rparr>"
  by (simp add: onend_def Let_def split: handler.splits)

lemma wordIndex_trace_map:
  "wordIndex_trace ns s = map (\<lambda>n. length (split_ws (take n (currentText s))) - 1) ns"
  by (induction ns arbitrary: s) (simp_all add: Let_def onboundary_word_wordIndex)

lemma speak_wordIndex [simp]: "wordIndex (speak txt opts s) = 0"
  by (simp add: speak_def Let_def)

lemma speak_onEnd [simp]: "onEnd (speak txt opts s) = opt_onEnd opts"
  by (simp add: speak_def Let_def)

lemma speak_utterances_created [simp]:
  "utterances_created (speak txt opts s) = Suc (utterances_created s)"
  by (simp add: speak_def Let_def stop_def utterances_created_def)

lemma set_voice_fields [simp]:
  "utt_text (set_voice vn voices u) = utt_text u"
  "utt_rate (set_voice vn voices u) = utt_rate u"
  "utt_id (set_voice vn voices u) = utt_id u"
  by (simp_all add: set_voice_def split: option.splits)

lemma set_voice_miss:
  "n \<notin> voice_name ` set voices \<Longrightarrow> set_voice (Some n) voices u = u"
  by (auto simp: set_voice_def find_None_iff split: option.splits dest: find_Some_iff [THEN iffD1])

lemma speak_utt_id:
  "map_option utt_id (utterance (speak txt opts s)) = Some (utterances_created s)"
  by (simp add: speak_def Let_def stop_def utterances_created_def)

text \<open>
  A held utterance makes \<^verbatim>\<open>changeRate\<close> throw: \<^verbatim>\<open>stop\<close> has set \<^verbatim>\<open>this.utterance\<close> to
  \<^verbatim>\<open>null\<close> by the time \<^verbatim>\<open>this.utterance.voice\<close> is read.
\<close>

lemma changeRate_throws:
  "utterance s \<noteq> None \<Longrightarrow> changeRate r s = Inl (TypeError, stop s)"
  by (auto simp: changeRate_def Let_def stop_def)

lemma changeRate_idle: "utterance s = None \<Longrightarrow> changeRate r s = Inr s"
  by (simp add: changeRate_def)

lemma step_ChangeRate: "step (ChangeRate r) s = (if utterance s = None then s else stop s)"
  by (simp add: changeRate_throws changeRate_idle)

subsection \<open>The session invariant\<close>

lemma session_inv_TTSManager: "session_inv (TTSManager vs)"
  by (simp add: session_inv_def TTSManager_def)

lemma session_inv_stop: "session_inv (stop s)"
  by (simp add: session_inv_def stop_def)

lemma session_inv_speak: "session_inv (speak txt opts s)"
  by (simp add: session_inv_def speak_def Let_def)

lemma session_inv_pause: "session_inv s \<Longrightarrow> session_inv (pause s)"
  by (simp add: session_inv_def pause_def)

lemma session_inv_resume: "session_inv s \<Longrightarrow> session_inv (resume s)"
  by (simp add: session_inv_def resume_def)

lemma session_inv_onend: "session_inv s \<Longrightarrow> session_inv (onend s)"
  by (simp add: session_inv_def onend_def Let_def split: handler.splits)

lemma session_inv_onboundary: "session_inv s \<Longrightarrow> session_inv (onboundary nm n s)"
  by (simp add: session_inv_def onboundary_def Let_def split: handler.splits)

lemma session_inv_step: "session_inv s \<Longrightarrow> session_inv (step x s)"
  by (cases x)
     (simp_all add: session_inv_stop session_inv_speak session_inv_pause session_inv_resume
        session_inv_onend session_inv_onboundary togglePlayPause_def step_ChangeRate
        del: step.simps(6))

lemma session_inv_run: "session_inv s \<Longrightarrow> session_inv (run xs s)"
  by (induction xs arbitrary: s) (simp_all add: session_inv_step)

lemma onboundary_valid:
  assumes "session_inv s" and "utterance s \<noteq> None"
  shows "wordIndex (onboundary (utf16 ''word'') n s) < length (words s)"
proof -
  have w: "words s = split_ws (currentText s)"
    using assms by (simp add: session_inv_def)
  have "Suc 0 \<le> length (split_ws (take n (currentText s)))"
    using split_from_length_pos by (simp add: split_ws_def)
  moreover have "length (split_ws (take n (currentText s))) \<le> length (split_ws (currentText s))"
    by (rule split_ws_take_le)
  ultimately show ?thesis
    by (simp add: onboundary_word_wordIndex w)
qed

lemma step_wordIndex_0:
  "\<not> is_BoundaryEvent x \<Longrightarrow> wordIndex s = 0 \<Longrightarrow> wordIndex (step x s) = 0"
  by (cases x)
     (simp_all add: stop_def pause_def resume_def togglePlayPause_def
        onend_def Let_def step_ChangeRate del: step.simps(6) split: handler.splits)

lemma run_wordIndex_0:
  "\<forall>x\<in>set xs. \<not> is_BoundaryEvent x \<Longrightarrow> wordIndex s = 0 \<Longrightarrow> wordIndex (run xs s) = 0"
  by (induction xs arbitrary: s) (simp_all add: step_wordIndex_0)

subsection \<open>Invocations of onEnd along a run\<close>

lemma ended_calls_stop [simp]: "ended_calls (stop s) = ended_calls s"
  by (simp add: ended_calls_def stop_def)

lemma ended_calls_speak [simp]: "ended_calls (speak txt opts s) = ended_calls s"
  by (simp add: ended_calls_def speak_def stop_def Let_def)

lemma ended_calls_pause [simp]: "ended_calls (pause s) = ended_calls s"
  by (simp add: ended_calls_def pause_def)

lemma ended_calls_resume [simp]: "ended_calls (resume s) = ended_calls s"
  by (simp add: ended_calls_def resume_def)

lemma ended_calls_onboundary [simp]: "ended_calls (onboundary nm n s) = ended_calls s"
  by (simp add: ended_calls_def onboundary_def Let_def split: handler.splits)

lemma ended_calls_step:
  "\<not> is_EndEvent x \<Longrightarrow> ended_calls (step x s) = ended_calls s"
  by (cases x) (simp_all add: togglePlayPause_def step_ChangeRate del: step.simps(6))

lemma ended_calls_run:
  "\<forall>x\<in>set xs. \<not> is_EndEvent x \<Longrightarrow> ended_calls (run xs s) = ended_calls s"
  by (induction xs arbitrary: s) (simp_all add: ended_calls_step)

lemma ended_calls_step_le:
  "length (ended_calls (step x s)) \<le> length (ended_calls s) + (if is_EndEvent x then 1 else 0)"
proof (cases "is_EndEvent x")
  case True
  then obtain uid where "x = EndEvent uid" by (cases x) simp_all
  then show ?thesis
    by (simp add: onend_effect ended_calls_def split: handler.splits)
next
  case False
  then show ?thesis by (simp add: ended_calls_step)
qed

lemma ended_calls_run_le:
  "length (ended_calls (run xs s)) \<le> length (ended_calls s) + length (filter is_EndEvent xs)"
proof (induction xs arbitrary: s)
  case Nil
  then show ?case by simp
next
  case (Cons x xs)
  show ?case
    using Cons.IH [of "step x s"] ended_calls_step_le [of x s]
    by (simp split: if_splits)
qed

lemma session_op_step:
  assumes "session_op x"
  shows "onEnd (step x s) = onEnd s \<and>
         utterances_created (step x s) = utterances_created s \<and>
         ended_calls (step x s) = ended_calls s"
  using assms
  by (cases x)
     (simp_all add: session_op_def pause_def resume_def togglePlayPause_def onboundary_def
        Let_def utterances_created_def ended_calls_def split: handler.splits)

lemma session_op_run:
  "\<forall>x\<in>set xs. session_op x \<Longrightarrow>
     onEnd (run xs s) = onEnd s \<and>
     utterances_created (run xs s) = utterances_created s \<and>
     ended_calls (run xs s) = ended_calls s"
  by (induction xs arbitrary: s) (simp_all add: session_op_step)

lemma run_append: "run (xs @ ys) s = run ys (run xs s)"
  by (induction xs arbitrary: s) simp_all

lemma natural_completion:
  assumes "\<forall>x\<in>set ys. session_op x" and "opt_onEnd opts = Fn k"
  shows "ended_calls (run (Speak txt opts # ys @ [EndEvent (utterances_created s)]) s)
           = ended_calls s @ [Ended k]"
proof -
  let ?s1 = "speak txt opts s"
  let ?s2 = "run ys ?s1"
  have a: "onEnd ?s2 = Fn k" "utterances_created ?s2 = Suc (utterances_created s)"
      "ended_calls ?s2 = ended_calls s"
    using session_op_run [OF assms(1), of ?s1] assms(2) by simp_all
  have "run (Speak txt opts # ys @ [EndEvent (utterances_created s)]) s
          = step (EndEvent (utterances_created s)) ?s2"
    by (simp add: run_append)
  also have "\<dots> = onend ?s2" using a(2) by simp
  finally show ?thesis
    using a(1) a(3) by (simp add: onend_effect ended_calls_def)
qed

subsection \<open>Without an utterance, and on whitespace\<close>

lemma idle_inv_TTSManager: "idle_inv (TTSManager vs)"
  by (simp add: idle_inv_def TTSManager_def)

lemma idle_inv_step: "idle_inv s \<Longrightarrow> idle_inv (step x s)"
  by (cases x)
     (simp_all add: idle_inv_def stop_def speak_def pause_def resume_def togglePlayPause_def
        onend_def onboundary_def Let_def step_ChangeRate
        del: step.simps(6) split: handler.splits)

lemma idle_inv_run: "idle_inv s \<Longrightarrow> idle_inv (run xs s)"
  by (induction xs arbitrary: s) (simp_all add: idle_inv_step)

lemma split_ws_Nil: "split_ws [] = [[]]"
  by (simp add: split_ws_def)

lemma onboundary_idle:
  assumes "idle_inv s" and "utterance s = None"
  shows "onboundary (utf16 ''word'') n s =
           s\<lparr>wordIndex := 0, currentWord := None,
             calls := calls s @ (case onWordChange s of
                                    Fn k \<Rightarrow> [WordChange k None 0] | _ \<Rightarrow> [])\<rparr>"
proof -
  have t: "currentText s = []" and w: "words s = []"
    using assms by (simp_all add: idle_inv_def)
  show ?thesis
    by (simp add: onboundary_word_effect t w split_ws_Nil index_def Let_def split: handler.splits)
qed

lemma split_ws_take_all_ws:
  assumes "\<forall>c\<in>set txt. is_ws c"
  shows "length (split_ws (take n txt)) - 1 = (if txt = [] \<or> n = 0 then 0 else 1)"
proof -
  have "\<forall>c\<in>set (take n txt). is_ws c"
    using assms by (auto dest: in_set_takeD)
  then have "split_ws (take n txt) = (if take n txt = [] then [[]] else [[], []])"
    by (rule split_ws_all_ws)
  then show ?thesis by (auto simp: take_eq_Nil)
qed

lemma speak_currentText: "currentText (speak txt opts s) = txt"
  by (simp add: speak_def Let_def)

lemma onboundary_empty_text:
  "currentText s = [] \<Longrightarrow> wordIndex s = 0 \<Longrightarrow> wordIndex (onboundary nm n s) = 0"
  by (simp add: onboundary_def Let_def substring0_def split_ws_Nil split: handler.splits)

lemma step_empty_text:
  assumes "\<not> is_Speak x" and "currentText s = []" and "wordIndex s = 0"
  shows "currentText (step x s) = [] \<and> wordIndex (step x s) = 0"
  using assms
  by (cases x)
     (simp_all add: is_Speak_def stop_def pause_def resume_def togglePlayPause_def onend_def
        onboundary_empty_text Let_def step_ChangeRate
        del: step.simps(6) split: handler.splits)

lemma run_empty_text:
  "\<forall>x\<in>set xs. \<not> is_Speak x \<Longrightarrow> currentText s = [] \<Longrightarrow> wordIndex s = 0 \<Longrightarrow>
     wordIndex (run xs s) = 0"
  by (induction xs arbitrary: s) (simp_all add: step_empty_text)

section \<open>The claims\<close>

text \<open>
  C1, as amended. \<^verbatim>\<open>onEnd\<close> is invoked by completion events and by nothing else, once per
  event: a completion event delivered to any utterance the manager created sets
  \<^verbatim>\<open>isPlaying\<close> to false and calls the \<^verbatim>\<open>onEnd\<close> stored at that moment once, if it is a
  function; a session that runs from \<^verbatim>\<open>speak\<close> through pause, resume, toggle and boundary
  events to the completion event of its own utterance gets exactly one \<^verbatim>\<open>onEnd\<close> call;
  a sequence of operations without completion events, whatever \<^verbatim>\<open>stop\<close> and \<^verbatim>\<open>speak\<close>
  calls it holds, invokes no \<^verbatim>\<open>onEnd\<close>; and no sequence invokes \<^verbatim>\<open>onEnd\<close> more often
  than it has completion events. Nothing in the manager suppresses the completion event of
  a cancelled utterance: \<^verbatim>\<open>stop\<close> detaches no handler and keeps \<^verbatim>\<open>this.onEnd\<close>.
\<close>

theorem onEnd_per_completion_event:
  "(uid < utterances_created s \<longrightarrow>
      calls (step (EndEvent uid) s) = calls s @ (case onEnd s of Fn k \<Rightarrow> [Ended k] | _ \<Rightarrow> []) \<and>
      \<not> isPlaying (step (EndEvent uid) s)) \<and>
   map_option utt_id (utterance (speak txt opts s)) = Some (utterances_created s) \<and>
   ((\<forall>x\<in>set ys. session_op x) \<and> opt_onEnd opts = Fn k \<longrightarrow>
      ended_calls (run (Speak txt opts # ys @ [EndEvent (utterances_created s)]) s)
        = ended_calls s @ [Ended k]) \<and>
   ((\<forall>x\<in>set xs. \<not> is_EndEvent x) \<longrightarrow> ended_calls (run xs s) = ended_calls s) \<and>
   length (ended_calls (run zs s)) \<le> length (ended_calls s) + length (filter is_EndEvent zs)"
  using natural_completion [of ys opts k "txt" s] ended_calls_run [of xs s]
    ended_calls_run_le [of zs s] speak_utt_id [of "txt" opts s]
  by (simp add: onend_effect)

theorem onEnd_per_completion_event_witness:
  "0 < utterances_created (run [Speak (utf16 ''a'') scenario_options] (TTSManager [])) \<and>
   calls (step (EndEvent 0) (run [Speak (utf16 ''a'') scenario_options] (TTSManager [])))
     = [Ended 2] \<and>
   list_all session_op [Pause, BoundaryEvent 0 (utf16 ''word'') 0, Resume] \<and>
   opt_onEnd scenario_options = Fn 2 \<and>
   ended_calls (run (Speak (utf16 ''a'') scenario_options #
                     [Pause, BoundaryEvent 0 (utf16 ''word'') 0, Resume] @ [EndEvent 1])
                  (run [Speak (utf16 ''a'') scenario_options] (TTSManager []))) = [Ended 2] \<and>
   list_all (\<lambda>x. \<not> is_EndEvent x) [Stop, Speak (utf16 ''b'') scenario_options, Stop] \<and>
   ended_calls (run [Stop, Speak (utf16 ''b'') scenario_options, Stop]
                  (run [Speak (utf16 ''a'') scenario_options] (TTSManager []))) = []"
proof -
  let ?s = "run [Speak (utf16 ''a'') scenario_options] (TTSManager [])"
  have c: "utterances_created ?s = 1" "onEnd ?s = Fn 2" "calls ?s = []" "ended_calls ?s = []"
    by code_simp+
  have h1: "\<forall>x\<in>set [Pause, BoundaryEvent 0 (utf16 ''word'') 0, Resume]. session_op x"
    by (simp add: session_op_def)
  have h2: "opt_onEnd scenario_options = Fn 2"
    by (simp add: scenario_options_def)
  have h3: "\<forall>x\<in>set [Stop, Speak (utf16 ''b'') scenario_options, Stop]. \<not> is_EndEvent x"
    by simp
  show ?thesis
    using onEnd_per_completion_event [of 0 ?s "utf16 ''a''" scenario_options
        "[Pause, BoundaryEvent 0 (utf16 ''word'') 0, Resume]" 2
        "[Stop, Speak (utf16 ''b'') scenario_options, Stop]" "[]"]
      h1 h2 h3
    unfolding c by simp
qed

text \<open>
  C1 as stated fails: after \<^verbatim>\<open>speak("a", {onEnd: f7})\<close> and \<^verbatim>\<open>stop()\<close>, the completion
  event that the engine fires on the cancelled utterance runs its \<^verbatim>\<open>onend\<close> handler, which
  finds \<^verbatim>\<open>this.onEnd\<close> still set and calls it: \<^verbatim>\<open>onEnd\<close> is invoked for a stopped session.
\<close>

theorem onEnd_after_stop_counterexample:
  "calls (run [Speak (utf16 ''a'') (no_options\<lparr>opt_onEnd := Fn 7\<rparr>), Stop]
            (TTSManager [])) = [] \<and>
   calls (run [Speak (utf16 ''a'') (no_options\<lparr>opt_onEnd := Fn 7\<rparr>), Stop, EndEvent 0]
            (TTSManager [])) = [Ended 7]"
  by code_simp

text \<open>
  C2 fails on the code. With the text "one two three four" and a word boundary at offset 4
  (\<^verbatim>\<open>wordIndex\<close> 1), \<^verbatim>\<open>changeRate(1.5)\<close> throws a TypeError and starts no session: the
  engine has received the first utterance and two cancels, no utterance for
  "two three four", and the manager is left stopped with an empty text.
\<close>

theorem changeRate_remaining_text_throws:
  "wordIndex (run [Speak (utf16 ''one two three four'') scenario_options,
                   BoundaryEvent 0 (utf16 ''word'') 4] (TTSManager [])) = 1 \<and>
   changeRate (Num 1.5)
     (run [Speak (utf16 ''one two three four'') scenario_options,
           BoundaryEvent 0 (utf16 ''word'') 4] (TTSManager []))
     = Inl (TypeError,
         stop (run [Speak (utf16 ''one two three four'') scenario_options,
                    BoundaryEvent 0 (utf16 ''word'') 4] (TTSManager []))) \<and>
   synth_cmds (run [Speak (utf16 ''one two three four'') scenario_options,
                    BoundaryEvent 0 (utf16 ''word'') 4,
                    ChangeRate (Num 1.5)] (TTSManager []))
     = [Cancel,
        SpeakCmd \<lparr>utt_id = 0, utt_text = utf16 ''one two three four'', utt_rate = 1,
                  utt_voice = None\<rparr>,
        Cancel] \<and>
   utterance (run [Speak (utf16 ''one two three four'') scenario_options,
                   BoundaryEvent 0 (utf16 ''word'') 4,
                   ChangeRate (Num 1.5)] (TTSManager [])) = None \<and>
   currentText (run [Speak (utf16 ''one two three four'') scenario_options,
                     BoundaryEvent 0 (utf16 ''word'') 4,
                     ChangeRate (Num 1.5)] (TTSManager [])) = []"
  by code_simp

text \<open>
  C3. Word-boundary events with non-decreasing character offsets give non-decreasing
  values of \<^verbatim>\<open>wordIndex\<close>, from any state of the manager, and from the 0 that \<^verbatim>\<open>speak\<close>
  sets when the events follow the start of a session. The offsets need not lie within the
  text.
\<close>

theorem wordIndex_monotonic:
  assumes "sorted offsets"
  shows "sorted (wordIndex_trace offsets s) \<and>
         sorted (wordIndex (speak txt opts s0) # wordIndex_trace offsets (speak txt opts s0))"
proof -
  have mono: "\<And>n m t. n \<le> m \<Longrightarrow>
      length (split_ws (take n t)) - 1 \<le> length (split_ws (take m t)) - 1"
    using split_ws_take_mono by (simp add: diff_le_mono)
  have "sorted (map (\<lambda>n. length (split_ws (take n t)) - 1) offsets)" for t
    using assms mono [of _ _ t] by (simp add: sorted_map sorted_wrt_mono_rel [of offsets "(\<le>)"])
  then show ?thesis
    by (simp add: wordIndex_trace_map)
qed

theorem wordIndex_monotonic_witness:
  "sorted [4, 9, 9, 16 :: nat] \<and>
   wordIndex_trace [4, 9, 9, 16]
     (speak (utf16 ''The quick brown fox'') no_options (TTSManager [])) = [1, 1, 1, 3] \<and>
   sorted (wordIndex_trace [4, 9, 9, 16]
     (speak (utf16 ''The quick brown fox'') no_options (TTSManager [])))"
proof -
  have h: "sorted [4, 9, 9, 16 :: nat]" by simp
  have e: "wordIndex_trace [4, 9, 9, 16]
     (speak (utf16 ''The quick brown fox'') no_options (TTSManager [])) = [1, 1, 1, 3]"
    by code_simp
  show ?thesis
    using h wordIndex_monotonic [OF h,
        of "speak (utf16 ''The quick brown fox'') no_options (TTSManager [])"]
    unfolding e by simp
qed

text \<open>
  C4, as amended. In a manager reached by any sequence of operations, a word boundary
  event at any offset (within the text or past its end) leaves \<^verbatim>\<open>wordIndex\<close> a valid
  index of \<^verbatim>\<open>words\<close> as long as an utterance is held, so \<^verbatim>\<open>currentWord\<close> and the word
  passed to \<^verbatim>\<open>onWordChange\<close> are defined there. With no utterance held (after \<^verbatim>\<open>stop\<close>,
  or after \<^verbatim>\<open>changeRate\<close> has thrown) \<^verbatim>\<open>words\<close> is empty, and the event sets
  \<^verbatim>\<open>wordIndex\<close> to 0 and passes \<^verbatim>\<open>undefined\<close> to \<^verbatim>\<open>onWordChange\<close>. From \<^verbatim>\<open>speak\<close> until
  the first boundary event \<^verbatim>\<open>wordIndex\<close> is 0.
\<close>

theorem wordIndex_valid:
  assumes "s = run xs (TTSManager vs)" and "s' = onboundary (utf16 ''word'') n s"
  shows "(utterance s \<noteq> None \<longrightarrow>
            wordIndex s' < length (words s') \<and>
            currentWord s' = Some (words s' ! wordIndex s') \<and>
            (\<forall>k. onWordChange s = Fn k \<longrightarrow>
               calls s' = calls s @
                 [WordChange k (Some (words s' ! wordIndex s')) (wordIndex s')])) \<and>
         (utterance s = None \<longrightarrow>
            words s' = [] \<and> wordIndex s' = 0 \<and> currentWord s' = None \<and>
            (\<forall>k. onWordChange s = Fn k \<longrightarrow> calls s' = calls s @ [WordChange k None 0])) \<and>
         ((\<forall>x\<in>set ys. \<not> is_BoundaryEvent x) \<longrightarrow> wordIndex (run ys (speak txt opts s0)) = 0)"
proof -
  have inv: "session_inv s"
    using assms(1) session_inv_run [OF session_inv_TTSManager] by simp
  have idle: "idle_inv s"
    using assms(1) idle_inv_run [OF idle_inv_TTSManager] by simp
  have i: "wordIndex s' = length (split_ws (take n (currentText s))) - 1"
    using assms(2) by (simp add: onboundary_word_wordIndex)
  have e: "s' = (let i = length (split_ws (take n (currentText s))) - 1
      in s\<lparr>wordIndex := i, currentWord := index (words s) i,
            calls := calls s @ (case onWordChange s of
                                   Fn k \<Rightarrow> [WordChange k (index (words s) i) i] | _ \<Rightarrow> [])\<rparr>)"
    using assms(2) onboundary_word_effect by simp
  have w: "words s' = words s" using assms(2) by simp
  have held: "wordIndex s' < length (words s') \<and>
            currentWord s' = Some (words s' ! wordIndex s') \<and>
            (\<forall>k. onWordChange s = Fn k \<longrightarrow>
               calls s' = calls s @
                 [WordChange k (Some (words s' ! wordIndex s')) (wordIndex s')])"
    if u: "utterance s \<noteq> None"
  proof -
    have v: "wordIndex s' < length (words s)"
      using onboundary_valid [OF inv u] assms(2) by simp
    have ix: "index (words s) (wordIndex s') = Some (words s ! wordIndex s')"
      using v by (simp add: index_def)
    show ?thesis using v e ix i w by (simp add: Let_def)
  qed
  have idlecase: "words s' = [] \<and> wordIndex s' = 0 \<and> currentWord s' = None \<and>
            (\<forall>k. onWordChange s = Fn k \<longrightarrow> calls s' = calls s @ [WordChange k None 0])"
    if u: "utterance s = None"
  proof -
    have "s' = s\<lparr>wordIndex := 0, currentWord := None,
             calls := calls s @ (case onWordChange s of
                                    Fn k \<Rightarrow> [WordChange k None 0] | _ \<Rightarrow> [])\<rparr>"
      using onboundary_idle [OF idle u] assms(2) by simp
    moreover have "words s = []" using idle u by (simp add: idle_inv_def)
    ultimately show ?thesis by simp
  qed
  have 4: "(\<forall>x\<in>set ys. \<not> is_BoundaryEvent x) \<longrightarrow> wordIndex (run ys (speak txt opts s0)) = 0"
    using run_wordIndex_0 [of ys "speak txt opts s0"] by simp
  show ?thesis using held idlecase 4 by blast
qed

theorem wordIndex_valid_witness:
  "utterance (run [Speak (utf16 ''The quick brown fox'') scenario_options, Pause] (TTSManager []))
     \<noteq> None \<and>
   wordIndex (onboundary (utf16 ''word'') 16
     (run [Speak (utf16 ''The quick brown fox'') scenario_options, Pause] (TTSManager []))) = 3 \<and>
   3 < length (words (onboundary (utf16 ''word'') 16
     (run [Speak (utf16 ''The quick brown fox'') scenario_options, Pause] (TTSManager [])))) \<and>
   currentWord (onboundary (utf16 ''word'') 16
     (run [Speak (utf16 ''The quick brown fox'') scenario_options, Pause] (TTSManager [])))
     = Some (utf16 ''fox'') \<and>
   utterance (run [Speak (utf16 ''The quick brown fox'') scenario_options, Stop] (TTSManager []))
     = None \<and>
   currentWord (onboundary (utf16 ''word'') 0
     (run [Speak (utf16 ''The quick brown fox'') scenario_options, Stop] (TTSManager []))) = None \<and>
   list_all (\<lambda>x. \<not> is_BoundaryEvent x) [Pause, Resume, EndEvent 0] \<and>
   wordIndex (run [Pause, Resume, EndEvent 0]
     (speak (utf16 ''The quick brown fox'') scenario_options (TTSManager []))) = 0"
proof -
  let ?s = "run [Speak (utf16 ''The quick brown fox'') scenario_options, Pause] (TTSManager [])"
  let ?s' = "onboundary (utf16 ''word'') 16 ?s"
  let ?t = "run [Speak (utf16 ''The quick brown fox'') scenario_options, Stop] (TTSManager [])"
  have h1: "utterance ?s \<noteq> None" by code_simp
  have h2: "\<forall>x\<in>set [Pause, Resume, EndEvent 0]. \<not> is_BoundaryEvent x"
    by simp
  have h3: "utterance ?t = None" by code_simp
  have e: "wordIndex ?s' = 3" "words ?s' ! 3 = utf16 ''fox''" by code_simp+
  show ?thesis
    using wordIndex_valid [OF refl refl, of "[Speak (utf16 ''The quick brown fox'') scenario_options, Pause]"
        "[]" 16 "[Pause, Resume, EndEvent 0]"
        "utf16 ''The quick brown fox''" scenario_options "TTSManager []"]
      wordIndex_valid [OF refl refl, of "[Speak (utf16 ''The quick brown fox'') scenario_options, Stop]"
        "[]" 0 "[]" "[]" scenario_options "TTSManager []"]
      h1 h2 h3
    unfolding e by simp
qed

text \<open>
  C4 as stated fails: after \<^verbatim>\<open>speak("The quick brown fox", ...)\<close> and \<^verbatim>\<open>stop()\<close> the
  text is empty, and a word boundary event of the cancelled utterance at offset 0, which
  is at most the length of the text, finds \<^verbatim>\<open>words\<close> empty: \<^verbatim>\<open>words[0]\<close> is
  \<^verbatim>\<open>undefined\<close>, and that is what \<^verbatim>\<open>onWordChange\<close> is called with.
\<close>

theorem wordIndex_after_stop_counterexample:
  "currentText (run [Speak (utf16 ''The quick brown fox'') scenario_options, Stop]
                  (TTSManager [])) = [] \<and>
   words (run [Speak (utf16 ''The quick brown fox'') scenario_options, Stop,
               BoundaryEvent 0 (utf16 ''word'') 0] (TTSManager [])) = [] \<and>
   wordIndex (run [Speak (utf16 ''The quick brown fox'') scenario_options, Stop,
                   BoundaryEvent 0 (utf16 ''word'') 0] (TTSManager [])) = 0 \<and>
   calls (run [Speak (utf16 ''The quick brown fox'') scenario_options, Stop,
               BoundaryEvent 0 (utf16 ''word'') 0] (TTSManager [])) = [WordChange 1 None 0]"
  by code_simp

text \<open>
  C5. \<^verbatim>\<open>stop\<close> has no failing branch and is idempotent: a second \<^verbatim>\<open>stop\<close> changes nothing
  but the engine's log, which gets one more cancel; on a fresh manager, with no session,
  \<^verbatim>\<open>stop\<close> changes nothing else either. After one call and after two the text and the
  words are empty, \<^verbatim>\<open>wordIndex\<close> is 0, \<^verbatim>\<open>isPlaying\<close> is false and no utterance is held.
\<close>

theorem stop_idempotent:
  "stop (stop s) = (stop s)\<lparr>synth_cmds := synth_cmds (stop s) @ [Cancel]\<rparr> \<and>
   stop (TTSManager vs) = (TTSManager vs)\<lparr>synth_cmds := [Cancel]\<rparr> \<and>
   utterance (stop s) = None \<and> currentText (stop s) = [] \<and> words (stop s) = [] \<and>
   wordIndex (stop s) = 0 \<and> \<not> isPlaying (stop s) \<and>
   utterance (stop (stop s)) = None \<and> currentText (stop (stop s)) = [] \<and>
   words (stop (stop s)) = [] \<and> wordIndex (stop (stop s)) = 0 \<and> \<not> isPlaying (stop (stop s))"
  by (simp add: stop_def TTSManager_def)

text \<open>
  C6. \<^verbatim>\<open>speak("The quick brown fox", {rate: 1.0, onWordChange: f1, onEnd: f2})\<close> on a
  fresh manager, then word boundaries at offsets 4 and 16 and the completion event: the
  callbacks invoked are \<^verbatim>\<open>f1("quick", 1)\<close>, \<^verbatim>\<open>f1("fox", 3)\<close> and \<^verbatim>\<open>f2()\<close>, once each and
  in this order, and \<^verbatim>\<open>isCurrentlyPlaying()\<close> is true before the completion event and
  false after it.
\<close>

theorem fox_scenario:
  "calls (run [Speak (utf16 ''The quick brown fox'') scenario_options,
               BoundaryEvent 0 (utf16 ''word'') 4,
               BoundaryEvent 0 (utf16 ''word'') 16,
               EndEvent 0] (TTSManager vs))
     = [WordChange 1 (Some (utf16 ''quick'')) 1, WordChange 1 (Some (utf16 ''fox'')) 3, Ended 2] \<and>
   \<not> isCurrentlyPlaying (run [Speak (utf16 ''The quick brown fox'') scenario_options,
               BoundaryEvent 0 (utf16 ''word'') 4,
               BoundaryEvent 0 (utf16 ''word'') 16,
               EndEvent 0] (TTSManager vs)) \<and>
   isCurrentlyPlaying (run [Speak (utf16 ''The quick brown fox'') scenario_options,
               BoundaryEvent 0 (utf16 ''word'') 4,
               BoundaryEvent 0 (utf16 ''word'') 16] (TTSManager vs))"
  by code_simp

text \<open>
  C7. When the requested voice name is the name of none of the engine's voices, \<^verbatim>\<open>speak\<close>
  (which has no failing branch) submits the utterance with no voice set, after the cancel;
  the utterance carries the text and the rate asked for, the manager is playing, and no
  callback has been invoked.
\<close>

theorem voice_miss_default:
  assumes "opt_voiceName opts = Some n" and "n \<notin> voice_name ` set (synth_voices s)"
  shows "\<exists>u. utterance (speak txt opts s) = Some u \<and>
             synth_cmds (speak txt opts s) = synth_cmds s @ [Cancel, SpeakCmd u] \<and>
             utt_voice u = None \<and> utt_text u = txt \<and>
             utt_rate u = rate_or_default (opt_rate opts) \<and>
             isPlaying (speak txt opts s) \<and> calls (speak txt opts s) = calls s"
  using assms by (simp add: speak_def Let_def stop_def set_voice_miss)

theorem voice_miss_default_witness:
  "opt_voiceName (no_options\<lparr>opt_voiceName := Some (utf16 ''nonexistent-voice'')\<rparr>)
     = Some (utf16 ''nonexistent-voice'') \<and>
   utf16 ''nonexistent-voice'' \<notin> voice_name ` set (synth_voices
     (TTSManager [\<lparr>voice_name = utf16 ''Alice'', voice_lang = utf16 ''en-US''\<rparr>])) \<and>
   (\<exists>u. synth_cmds (speak (utf16 ''Hello world'')
            (no_options\<lparr>opt_voiceName := Some (utf16 ''nonexistent-voice'')\<rparr>)
            (TTSManager [\<lparr>voice_name = utf16 ''Alice'', voice_lang = utf16 ''en-US''\<rparr>]))
          = [Cancel, SpeakCmd u] \<and> utt_voice u = None \<and> utt_text u = utf16 ''Hello world'')"
proof -
  have h1: "opt_voiceName (no_options\<lparr>opt_voiceName := Some (utf16 ''nonexistent-voice'')\<rparr>)
     = Some (utf16 ''nonexistent-voice'')" by simp
  have h2: "utf16 ''nonexistent-voice'' \<notin> voice_name ` set (synth_voices
     (TTSManager [\<lparr>voice_name = utf16 ''Alice'', voice_lang = utf16 ''en-US''\<rparr>]))"
    by (simp add: TTSManager_def utf16_def)
  have h3: "synth_cmds (TTSManager [\<lparr>voice_name = utf16 ''Alice'', voice_lang = utf16 ''en-US''\<rparr>])
     = []"
    by (simp add: TTSManager_def)
  show ?thesis
    using h1 h2 voice_miss_default [OF h1 h2, of "utf16 ''Hello world''"]
    by (auto simp: h3)
qed

text \<open>
  C8, as amended. \<^verbatim>\<open>speak\<close> accepts a text of whitespace only, stores it as given and
  submits it to the engine. For the empty text \<^verbatim>\<open>words\<close> is the one-element sequence
  holding the empty string, and \<^verbatim>\<open>wordIndex\<close> stays 0 through every later event and
  operation up to the next \<^verbatim>\<open>speak\<close>. For a non-empty whitespace text \<^verbatim>\<open>words\<close> is the
  two-element sequence of two empty strings; \<^verbatim>\<open>wordIndex\<close> is 0 when \<^verbatim>\<open>speak\<close> returns
  and after a word boundary event at offset 0, and 1 after a word boundary event at any
  offset from 1 on.
\<close>

theorem whitespace_words:
  assumes "\<forall>c\<in>set txt. is_ws c"
  shows "words (speak txt opts s) = (if txt = [] then [[]] else [[], []]) \<and>
         wordIndex (speak txt opts s) = 0 \<and>
         wordIndex (onboundary (utf16 ''word'') n (speak txt opts s))
           = (if txt = [] \<or> n = 0 then 0 else 1) \<and>
         (txt = [] \<and> (\<forall>x\<in>set ys. \<not> is_Speak x) \<longrightarrow>
            wordIndex (run ys (speak txt opts s)) = 0) \<and>
         currentText (speak txt opts s) = txt \<and>
         isPlaying (speak txt opts s) \<and>
         (\<exists>u. utterance (speak txt opts s) = Some u \<and> utt_text u = txt \<and>
              synth_cmds (speak txt opts s) = synth_cmds s @ [Cancel, SpeakCmd u])"
proof -
  have 1: "words (speak txt opts s) = (if txt = [] then [[]] else [[], []])"
    using split_ws_all_ws [OF assms] by (simp add: speak_def Let_def)
  have 2: "wordIndex (onboundary (utf16 ''word'') n (speak txt opts s))
           = (if txt = [] \<or> n = 0 then 0 else 1)"
    using split_ws_take_all_ws [OF assms, of n]
    by (simp add: onboundary_word_wordIndex speak_currentText)
  have 3: "txt = [] \<and> (\<forall>x\<in>set ys. \<not> is_Speak x) \<longrightarrow>
            wordIndex (run ys (speak txt opts s)) = 0"
    using run_empty_text [of ys "speak txt opts s"] by (simp add: speak_currentText)
  have 4: "isPlaying (speak txt opts s) \<and>
         (\<exists>u. utterance (speak txt opts s) = Some u \<and> utt_text u = txt \<and>
              synth_cmds (speak txt opts s) = synth_cmds s @ [Cancel, SpeakCmd u])"
    by (simp add: speak_def Let_def stop_def)
  show ?thesis using 1 2 3 4 by (simp add: speak_currentText)
qed

theorem whitespace_words_witness:
  "list_all is_ws (utf16 '' '' @ [0x09, 0x0A]) \<and>
   words (speak (utf16 '' '' @ [0x09, 0x0A]) no_options (TTSManager [])) = [[], []] \<and>
   wordIndex (onboundary (utf16 ''word'') 2
     (speak (utf16 '' '' @ [0x09, 0x0A]) no_options (TTSManager []))) = 1 \<and>
   wordIndex (onboundary (utf16 ''word'') 0
     (speak (utf16 '' '' @ [0x09, 0x0A]) no_options (TTSManager []))) = 0 \<and>
   list_all is_ws (utf16 '''') \<and>
   words (speak (utf16 '''') no_options (TTSManager [])) = [[]] \<and>
   list_all (\<lambda>x. \<not> is_Speak x) [BoundaryEvent 0 (utf16 ''word'') 3, Pause, EndEvent 0] \<and>
   wordIndex (run [BoundaryEvent 0 (utf16 ''word'') 3, Pause, EndEvent 0]
     (speak (utf16 '''') no_options (TTSManager []))) = 0"
proof -
  have h1: "\<forall>c\<in>set (utf16 '' '' @ [0x09, 0x0A]). is_ws c"
    by (simp add: utf16_def is_ws_def)
  have h2: "\<forall>c\<in>set (utf16 ''''). is_ws c"
    by (simp add: utf16_def)
  have h3: "\<forall>x\<in>set [BoundaryEvent 0 (utf16 ''word'') 3, Pause, EndEvent 0]. \<not> is_Speak x"
    by (simp add: is_Speak_def)
  have n: "utf16 '''' = []" "utf16 '' '' @ [0x09, 0x0A] \<noteq> []"
    by (simp_all add: utf16_def)
  note a = whitespace_words [OF h1, of no_options "TTSManager []" 2 "[]"]
  note b = whitespace_words [OF h1, of no_options "TTSManager []" 0 "[]"]
  note c = whitespace_words [OF h2, of no_options "TTSManager []" 0
        "[BoundaryEvent 0 (utf16 ''word'') 3, Pause, EndEvent 0]"]
  have 1: "words (speak (utf16 '' '' @ [0x09, 0x0A]) no_options (TTSManager [])) = [[], []]"
    using a n by simp
  have 2: "wordIndex (onboundary (utf16 ''word'') 2
     (speak (utf16 '' '' @ [0x09, 0x0A]) no_options (TTSManager []))) = 1"
    using a n by simp
  have 3: "wordIndex (onboundary (utf16 ''word'') 0
     (speak (utf16 '' '' @ [0x09, 0x0A]) no_options (TTSManager []))) = 0"
    using b by simp
  have 4: "words (speak (utf16 '''') no_options (TTSManager [])) = [[]]"
    using c n by simp
  have 5: "wordIndex (run [BoundaryEvent 0 (utf16 ''word'') 3, Pause, EndEvent 0]
     (speak (utf16 '''') no_options (TTSManager []))) = 0"
    using c n h3 by blast
  have 6: "list_all is_ws (utf16 '' '' @ [0x09, 0x0A])" "list_all is_ws (utf16 '''')"
    "list_all (\<lambda>x. \<not> is_Speak x) [BoundaryEvent 0 (utf16 ''word'') 3, Pause, EndEvent 0]"
    using h1 h2 h3 by (simp_all only: list_all_iff)
  show ?thesis
    using 1 2 3 4 5 6 by blast
qed

text \<open>
  C8 as stated fails: for the text of one space, \<^verbatim>\<open>words\<close> has two elements, both the
  empty string, and is not the one-element sequence holding the text; and a word boundary
  event at offset 1 moves \<^verbatim>\<open>wordIndex\<close> from 0 to 1.
\<close>

theorem whitespace_words_counterexample:
  "words (speak (utf16 '' '') no_options (TTSManager [])) = [[], []] \<and>
   words (speak (utf16 '' '') no_options (TTSManager [])) \<noteq> [utf16 '' ''] \<and>
   length (words (speak (utf16 '' '') no_options (TTSManager []))) \<noteq> 1 \<and>
   wordIndex (run [Speak (utf16 '' '') no_options, BoundaryEvent 0 (utf16 ''word'') 1]
                (TTSManager [])) = 1 \<and>
   wordIndex (run [Speak (utf16 '' '') no_options, BoundaryEvent 0 (utf16 ''word'') 1]
                (TTSManager [])) \<noteq> 0"
  by code_simp

text \<open>
  C9. \<^verbatim>\<open>pause\<close> followed by \<^verbatim>\<open>resume\<close> leaves \<^verbatim>\<open>wordIndex\<close>, \<^verbatim>\<open>currentText\<close> and
  \<^verbatim>\<open>words\<close> as they were, in every state; the two calls change only \<^verbatim>\<open>isPlaying\<close>, which
  ends true exactly when an utterance is held, and the engine's log, which gets a pause
  if the manager was playing and a resume if an utterance is held.
\<close>

theorem pause_resume_frame:
  "wordIndex (resume (pause s)) = wordIndex s \<and>
   currentText (resume (pause s)) = currentText s \<and>
   words (resume (pause s)) = words s \<and>
   resume (pause s) =
     s\<lparr>isPlaying := (utterance s \<noteq> None),
       synth_cmds := synth_cmds s @ (if isPlaying s then [PauseCmd] else []) @
                     (if utterance s \<noteq> None then [ResumeCmd] else [])\<rparr>"
  by (simp add: pause_def resume_def)

text \<open>
  C10. \<^verbatim>\<open>addHistoryEntry\<close> stores a history whose first element is the new entry, the
  fields given and the generated \<^verbatim>\<open>id\<close> (the time in decimal), followed by the first 99
  entries of the history found; the stored history is never longer than 100.
\<close>

theorem addHistoryEntry_front_bounded:
  "\<exists>h. history (addHistoryEntry now e st) = Some h \<and>
       h \<noteq> [] \<and>
       hd h = \<lparr>url = url e, timestamp = timestamp e, extractedText = extractedText e,
               entry_id = toString now\<rparr> \<and>
       tl h = take 99 (case history st of None \<Rightarrow> [] | Some old \<Rightarrow> old) \<and>
       length h \<le> 100"
  by (simp add: addHistoryEntry_def Let_def take_Cons' del: toString.simps)

end
